theory Spec2Isabelle
  imports Main
begin

section \<open>Direction\<close>

text \<open>
  The enumeration \<^verbatim>\<open>Direction\<close> of \<^verbatim>\<open>tron_lightcycle.py\<close>; each member carries
  its \<^verbatim>\<open>.value\<close>, a pair of Python integers.
\<close>

datatype Direction = UP | DOWN | LEFT | RIGHT

fun Direction_value :: "Direction \<Rightarrow> int \<times> int" where
  "Direction_value UP = (0, - 1)"
| "Direction_value DOWN = (0, 1)"
| "Direction_value LEFT = (- 1, 0)"
| "Direction_value RIGHT = (1, 0)"

section \<open>LightCycle\<close>

text \<open>
  The keys the program looks at. Every other key code is \<open>K_OTHER n\<close>.
\<close>

datatype key = K_w | K_s | K_a | K_d | K_UP | K_DOWN | K_LEFT | K_RIGHT | K_SPACE | K_OTHER nat

text \<open>
  The attributes of \<^verbatim>\<open>LightCycle\<close>, in the order \<^verbatim>\<open>__init__\<close> assigns them.
  Coordinates are Python integers: the program only ever constructs cycles at integer
  positions and steps them by integer amounts. The dictionary \<^verbatim>\<open>key_controls\<close> is an
  association list read with \<open>map_of\<close>.
\<close>

record LightCycle =
  x :: int
  y :: int
  color :: "int \<times> int \<times> int"
  direction :: Direction
  trail :: "(int \<times> int) list"
  key_controls :: "(key \<times> Direction) list"
  player_name :: string
  speed :: int
  alive :: bool

definition LightCycle_init ::
  "int \<Rightarrow> int \<Rightarrow> int \<times> int \<times> int \<Rightarrow> Direction \<Rightarrow> (key \<times> Direction) list \<Rightarrow> string \<Rightarrow> LightCycle" where
  "LightCycle_init x0 y0 col d kc name =
     \<lparr>x = x0, y = y0, color = col, direction = d, trail = [(x0, y0)],
      key_controls = kc, player_name = name, speed = 5, alive = True\<rparr>"

text \<open>
  \<^verbatim>\<open>move\<close>: returns at once for a dead cycle; otherwise adds \<^verbatim>\<open>dx * speed\<close> to
  \<^verbatim>\<open>x\<close>, \<^verbatim>\<open>dy * speed\<close> to \<^verbatim>\<open>y\<close>, and appends the new pair to the trail.
\<close>

definition move :: "LightCycle \<Rightarrow> LightCycle" where
  "move c =
     (if \<not> alive c then c
      else (case Direction_value (direction c) of (dx, dy) \<Rightarrow>
        let c1 = c\<lparr>x := x c + dx * speed c\<rparr>;
            c2 = c1\<lparr>y := y c1 + dy * speed c1\<rparr>
        in c2\<lparr>trail := trail c2 @ [(x c2, y c2)]\<rparr>))"

text \<open>
  \<^verbatim>\<open>change_direction\<close>: returns at once for a dead cycle; otherwise replaces the
  direction unless the current vector equals the negated new vector.
\<close>

definition change_direction :: "LightCycle \<Rightarrow> Direction \<Rightarrow> LightCycle" where
  "change_direction c new_direction =
     (if \<not> alive c then c
      else (case Direction_value (direction c) of (current_dx, current_dy) \<Rightarrow>
            (case Direction_value new_direction of (new_dx, new_dy) \<Rightarrow>
               if (current_dx, current_dy) \<noteq> (- new_dx, - new_dy)
               then c\<lparr>direction := new_direction\<rparr>
               else c)))"

text \<open>
  The Python slice \<^verbatim>\<open>xs[:-k]\<close> for \<open>k > 0\<close>: the stop index is \<open>len(xs) - k\<close>,
  clamped to \<open>0\<close> when negative. It never raises.
\<close>

definition slice_to_neg :: "nat \<Rightarrow> 'a list \<Rightarrow> 'a list" where
  "slice_to_neg k xs =
     (let stop = int (length xs) - int k in take (nat (if stop < 0 then 0 else stop)) xs)"

text \<open>
  The \<^verbatim>\<open>for segment in ...\<close> loop of \<^verbatim>\<open>check_collision\<close>: it returns at the first
  segment within the box, and falls through at the end of the list.
\<close>

fun hits :: "int \<Rightarrow> int \<Rightarrow> (int \<times> int) list \<Rightarrow> bool" where
  "hits hx hy [] = False"
| "hits hx hy (segment # rest) =
     (if \<bar>hx - fst segment\<bar> < 5 \<and> \<bar>hy - snd segment\<bar> < 5 then True else hits hx hy rest)"

text \<open>
  \<^verbatim>\<open>check_collision\<close> returns the cycle after the call and the returned Boolean.
\<close>

definition check_collision :: "LightCycle \<Rightarrow> (int \<times> int) list \<Rightarrow> LightCycle \<times> bool" where
  "check_collision c other_trail =
     (if \<not> alive c then (c, False)
      else if x c < 0 \<or> x c > 800 \<or> y c < 0 \<or> y c > 600 then (c\<lparr>alive := False\<rparr>, True)
      else if hits (x c) (y c) (other_trail @ slice_to_neg 10 (trail c))
           then (c\<lparr>alive := False\<rparr>, True)
      else (c, False))"

section \<open>Game\<close>

text \<open>
  The simulation attributes of \<^verbatim>\<open>Game\<close>. The window, clock and font are
  rendering resources and carry no simulation state. \<^verbatim>\<open>winner\<close> is \<^verbatim>\<open>None\<close> or a
  string.
\<close>

record Game =
  player1_controls :: "(key \<times> Direction) list"
  player2_controls :: "(key \<times> Direction) list"
  cycle1 :: LightCycle
  cycle2 :: LightCycle
  game_over :: bool
  winner :: "string option"

text \<open>
  \<^verbatim>\<open>Game.__init__\<close> assigns every attribute of the object it is called on; the
  restart paths call it on the running game.
\<close>

definition Game_init :: "Game \<Rightarrow> Game" where
  "Game_init g =
     (let g1 = g\<lparr>player1_controls := [(K_w, UP), (K_s, DOWN), (K_a, LEFT), (K_d, RIGHT)]\<rparr>;
          g2 = g1\<lparr>player2_controls := [(K_UP, UP), (K_DOWN, DOWN), (K_LEFT, LEFT), (K_RIGHT, RIGHT)]\<rparr>;
          g3 = g2\<lparr>cycle1 := LightCycle_init 200 300 (0, 255, 255) RIGHT (player1_controls g2) ''Player 1''\<rparr>;
          g4 = g3\<lparr>cycle2 := LightCycle_init 600 300 (255, 255, 0) LEFT (player2_controls g3) ''Player 2''\<rparr>;
          g5 = g4\<lparr>game_over := False\<rparr>
      in g5\<lparr>winner := None\<rparr>)"

text \<open>\<^verbatim>\<open>Game()\<close>: the constructor run on a fresh object.\<close>

definition Game_new :: Game where
  "Game_new =
     Game_init \<lparr>player1_controls = [], player2_controls = [],
                cycle1 = LightCycle_init 0 0 (0, 0, 0) UP [] [],
                cycle2 = LightCycle_init 0 0 (0, 0, 0) UP [] [],
                game_over = False, winner = None\<rparr>"

text \<open>
  The body of the \<^verbatim>\<open>KEYDOWN\<close> branch of \<^verbatim>\<open>handle_keyboard_input\<close> for one
  event: player 1's key, then player 2's key, then the space bar.
\<close>

definition handle_keydown :: "Game \<Rightarrow> key \<Rightarrow> Game" where
  "handle_keydown g k =
     (let g1 = (case map_of (key_controls (cycle1 g)) k of
                  Some d \<Rightarrow> if alive (cycle1 g) then g\<lparr>cycle1 := change_direction (cycle1 g) d\<rparr> else g
                | None \<Rightarrow> g);
          g2 = (case map_of (key_controls (cycle2 g1)) k of
                  Some d \<Rightarrow> if alive (cycle2 g1) then g1\<lparr>cycle2 := change_direction (cycle2 g1) d\<rparr> else g1
                | None \<Rightarrow> g1)
      in if k = K_SPACE \<and> game_over g2 then Game_init g2 else g2)"

text \<open>
  The events of one frame. \<^verbatim>\<open>QUIT\<close> ends the process (\<open>None\<close>); events other
  than \<^verbatim>\<open>QUIT\<close> and \<^verbatim>\<open>KEYDOWN\<close> are skipped.
\<close>

datatype event = QUIT | KEYDOWN key | OTHER_EVENT

fun handle_keyboard_input :: "Game \<Rightarrow> event list \<Rightarrow> Game option" where
  "handle_keyboard_input g [] = Some g"
| "handle_keyboard_input g (QUIT # es) = None"
| "handle_keyboard_input g (KEYDOWN k # es) = handle_keyboard_input (handle_keydown g k) es"
| "handle_keyboard_input g (OTHER_EVENT # es) = handle_keyboard_input g es"

text \<open>
  \<^verbatim>\<open>handle_mouse_input\<close>, given the state of the left button and the pointer
  position.
\<close>

definition handle_mouse_input :: "Game \<Rightarrow> bool \<Rightarrow> int \<times> int \<Rightarrow> Game" where
  "handle_mouse_input g left_pressed mouse_pos =
     (if left_pressed \<and> game_over g
      then (if 300 < fst mouse_pos \<and> fst mouse_pos < 500 \<and> 400 < snd mouse_pos \<and> snd mouse_pos < 450
            then Game_init g else g)
      else g)"

text \<open>
  \<^verbatim>\<open>update\<close>. The condition is \<^verbatim>\<open>a or b\<close>: when the first cycle's check returns
  true the second cycle's check is not run.
\<close>

definition update :: "Game \<Rightarrow> Game" where
  "update g =
     (if game_over g then g
      else
        let g1 = g\<lparr>cycle1 := move (cycle1 g)\<rparr>;
            g2 = g1\<lparr>cycle2 := move (cycle2 g1)\<rparr>;
            (c1, r1) = check_collision (cycle1 g2) (trail (cycle2 g2));
            g3 = g2\<lparr>cycle1 := c1\<rparr>;
            (c2, r2) = (if r1 then (cycle2 g3, False)
                        else check_collision (cycle2 g3) (trail (cycle1 g3)));
            g4 = g3\<lparr>cycle2 := c2\<rparr>
        in if r1 \<or> r2
           then (let g5 = g4\<lparr>game_over := True\<rparr>
                 in if \<not> alive (cycle1 g5) \<and> \<not> alive (cycle2 g5) then g5\<lparr>winner := Some ''Draw''\<rparr>
                    else if \<not> alive (cycle1 g5) then g5\<lparr>winner := Some (player_name (cycle2 g5))\<rparr>
                    else g5\<lparr>winner := Some (player_name (cycle1 g5))\<rparr>)
           else g4)"

section \<open>Operations on a running game\<close>

text \<open>
  What the driver can do to a game between two frames: run \<^verbatim>\<open>update\<close>, deliver a
  key press, deliver the mouse state, call a cycle's \<^verbatim>\<open>change_direction\<close>, or call
  \<^verbatim>\<open>__init__\<close> again.
\<close>

datatype op = Tick | KeyDown key | MouseInput bool "int \<times> int"
  | Turn1 Direction | Turn2 Direction | Restart

fun apply_op :: "op \<Rightarrow> Game \<Rightarrow> Game" where
  "apply_op Tick g = update g"
| "apply_op (KeyDown k) g = handle_keydown g k"
| "apply_op (MouseInput left_pressed mouse_pos) g = handle_mouse_input g left_pressed mouse_pos"
| "apply_op (Turn1 d) g = g\<lparr>cycle1 := change_direction (cycle1 g) d\<rparr>"
| "apply_op (Turn2 d) g = g\<lparr>cycle2 := change_direction (cycle2 g) d\<rparr>"
| "apply_op Restart g = Game_init g"

text \<open>The game after a sequence of operations on a freshly constructed one.\<close>

definition run :: "op list \<Rightarrow> Game" where
  "run ops = foldl (\<lambda>g a. apply_op a g) Game_new ops"

section \<open>Vocabulary of the properties\<close>

text \<open>Two directions are opposite when their vectors are negations of each other.\<close>

definition opposite :: "Direction \<Rightarrow> Direction \<Rightarrow> bool" where
  "opposite d e = (Direction_value d = (- fst (Direction_value e), - snd (Direction_value e)))"

text \<open>A position outside the playfield rectangle.\<close>

definition out_of_bounds :: "LightCycle \<Rightarrow> bool" where
  "out_of_bounds c = (x c < 0 \<or> x c > 800 \<or> y c < 0 \<or> y c > 600)"

text \<open>
  What holds of every game the operations can produce: trails are never empty; a
  running game has no winner and two live cycles; a finished game has a winner, the
  name of its one live cycle, and exactly one dead cycle.
\<close>

definition game_inv :: "Game \<Rightarrow> bool" where
  "game_inv g =
     (trail (cycle1 g) \<noteq> [] \<and> trail (cycle2 g) \<noteq> []
      \<and> player_name (cycle1 g) = ''Player 1'' \<and> player_name (cycle2 g) = ''Player 2''
      \<and> (\<not> game_over g \<longrightarrow> winner g = None \<and> alive (cycle1 g) \<and> alive (cycle2 g))
      \<and> (game_over g \<longrightarrow>
            (\<not> alive (cycle1 g) \<and> alive (cycle2 g) \<and> winner g = Some ''Player 2'')
          \<or> (alive (cycle1 g) \<and> \<not> alive (cycle2 g) \<and> winner g = Some ''Player 1'')))"

text \<open>An operation that ends in a call of \<^verbatim>\<open>__init__\<close> on the given game.\<close>

fun restarts :: "op \<Rightarrow> Game \<Rightarrow> bool" where
  "restarts Restart g = True"
| "restarts (KeyDown k) g = (k = K_SPACE \<and> game_over g)"
| "restarts (MouseInput left_pressed mouse_pos) g =
     (left_pressed \<and> game_over g
      \<and> 300 < fst mouse_pos \<and> fst mouse_pos < 500 \<and> 400 < snd mouse_pos \<and> snd mouse_pos < 450)"
| "restarts a g = False"

text \<open>
  The game after \<open>n\<close> frames in which nobody steers, and the two cycles as they are
  then as long as they have not met.
\<close>

definition straight :: "nat \<Rightarrow> Game" where
  "straight n = (update ^^ n) Game_new"

definition straight_cycle1 :: "nat \<Rightarrow> LightCycle" where
  "straight_cycle1 n =
     (cycle1 Game_new)\<lparr>x := 200 + 5 * int n, trail := map (\<lambda>i. (200 + 5 * int i, 300)) [0..<Suc n]\<rparr>"

definition straight_cycle2 :: "nat \<Rightarrow> LightCycle" where
  "straight_cycle2 n =
     (cycle2 Game_new)\<lparr>x := 600 - 5 * int n, trail := map (\<lambda>i. (600 - 5 * int i, 300)) [0..<Suc n]\<rparr>"

text \<open>
  Two games one frame away from a wall: the first cycle on the right edge heading
  right, the second cycle on the left edge heading left.
\<close>

definition right_edge_game :: Game where
  "right_edge_game =
     Game_new\<lparr>cycle1 := LightCycle_init 800 300 (0, 255, 255) RIGHT (player1_controls Game_new) ''Player 1''\<rparr>"

definition left_edge_game :: Game where
  "left_edge_game =
     Game_new\<lparr>cycle2 := LightCycle_init 0 300 (255, 255, 0) LEFT (player2_controls Game_new) ''Player 2''\<rparr>"

text \<open>
  A game in which both cycles turn up, move one frame, turn away from each other and
  run 40 frames, and the two cycles as they are \<open>n\<close> frames after the second turn.
\<close>

definition apart_ops :: "op list" where
  "apart_ops = [KeyDown K_w, KeyDown K_UP, Tick, KeyDown K_a, KeyDown K_RIGHT] @ replicate 40 Tick"

definition apart_cycle1 :: "nat \<Rightarrow> LightCycle" where
  "apart_cycle1 n =
     (cycle1 Game_new)\<lparr>x := 200 - 5 * int n, y := 295, direction := LEFT,
                        trail := (200, 300) # map (\<lambda>i. (200 - 5 * int i, 295)) [0..<Suc n]\<rparr>"

definition apart_cycle2 :: "nat \<Rightarrow> LightCycle" where
  "apart_cycle2 n =
     (cycle2 Game_new)\<lparr>x := 600 + 5 * int n, y := 295, direction := RIGHT,
                        trail := (600, 300) # map (\<lambda>i. (600 + 5 * int i, 295)) [0..<Suc n]\<rparr>"

section \<open>Auxiliary facts\<close>

lemma hits_iff: "hits hx hy ps \<longleftrightarrow> (\<exists>p \<in> set ps. \<bar>hx - fst p\<bar> < 5 \<and> \<bar>hy - snd p\<bar> < 5)"
  by (induction ps) auto

lemma slice_to_neg_take: "slice_to_neg k xs = take (length xs - k) xs"
  by (simp add: slice_to_neg_def Let_def nat_diff_distrib')

lemma slice_to_neg_min: "slice_to_neg k xs = take (length xs - min k (length xs)) xs"
  by (simp add: slice_to_neg_take min_def)

lemma slice_to_neg_short: "length xs \<le> k \<Longrightarrow> slice_to_neg k xs = []"
  by (simp add: slice_to_neg_take)

lemma check_collision_oob:
  "alive c \<Longrightarrow> out_of_bounds c \<Longrightarrow> check_collision c t = (c\<lparr>alive := False\<rparr>, True)"
  by (auto simp add: check_collision_def out_of_bounds_def)

lemma check_collision_cases:
  "check_collision c t = (c, False)
   \<or> (alive c \<and> check_collision c t = (c\<lparr>alive := False\<rparr>, True))"
  by (simp add: check_collision_def)

lemma move_alive: "alive (move c) = alive c"
  by (simp add: move_def Let_def split: prod.split)

lemma move_player_name: "player_name (move c) = player_name c"
  by (simp add: move_def Let_def split: prod.split)

lemma move_dead: "\<not> alive c \<Longrightarrow> move c = c"
  by (simp add: move_def)

lemma move_trail_nonempty: "trail c \<noteq> [] \<Longrightarrow> trail (move c) \<noteq> []"
  by (simp add: move_def Let_def split: prod.split)

lemma change_direction_dead: "\<not> alive c \<Longrightarrow> change_direction c d = c"
  by (simp add: change_direction_def)

lemma change_direction_alive: "alive (change_direction c d) = alive c"
  by (simp add: change_direction_def split: prod.split)

lemma change_direction_trail: "trail (change_direction c d) = trail c"
  by (simp add: change_direction_def split: prod.split)

lemma change_direction_player_name: "player_name (change_direction c d) = player_name c"
  by (simp add: change_direction_def split: prod.split)

lemma Game_init_new: "Game_init g = Game_new"
  by (simp add: Game_init_def Game_new_def Let_def)

lemma update_finished: "game_over g \<Longrightarrow> update g = g"
  by (simp add: update_def)

lemma update_running:
  "\<not> game_over g \<Longrightarrow>
   update g =
     (let c1 = fst (check_collision (move (cycle1 g)) (trail (move (cycle2 g))));
          r1 = snd (check_collision (move (cycle1 g)) (trail (move (cycle2 g))));
          c2 = (if r1 then move (cycle2 g) else fst (check_collision (move (cycle2 g)) (trail c1)));
          r2 = (if r1 then False else snd (check_collision (move (cycle2 g)) (trail c1)))
      in if r1 \<or> r2
         then g\<lparr>cycle1 := c1, cycle2 := c2, game_over := True,
                winner := Some (if \<not> alive c1 \<and> \<not> alive c2 then ''Draw''
                                else if \<not> alive c1 then player_name c2 else player_name c1)\<rparr>
         else g\<lparr>cycle1 := c1, cycle2 := c2\<rparr>)"
  by (simp add: update_def Let_def split: prod.split)

lemma update_cases:
  assumes "\<not> game_over g"
  shows "update g = g\<lparr>cycle1 := move (cycle1 g), cycle2 := move (cycle2 g)\<rparr>
     \<or> (alive (cycle1 g) \<and>
         update g = g\<lparr>cycle1 := (move (cycle1 g))\<lparr>alive := False\<rparr>, cycle2 := move (cycle2 g),
                      game_over := True,
                      winner := Some (if \<not> alive (cycle2 g) then ''Draw'' else player_name (cycle2 g))\<rparr>)
     \<or> (alive (cycle2 g) \<and>
         update g = g\<lparr>cycle1 := move (cycle1 g), cycle2 := (move (cycle2 g))\<lparr>alive := False\<rparr>,
                      game_over := True,
                      winner := Some (if \<not> alive (cycle1 g) then ''Draw'' else player_name (cycle1 g))\<rparr>)"
proof -
  let ?m1 = "move (cycle1 g)" and ?m2 = "move (cycle2 g)"
  from check_collision_cases [of ?m1 "trail ?m2"] show ?thesis
  proof
    assume e1: "check_collision ?m1 (trail ?m2) = (?m1, False)"
    from check_collision_cases [of ?m2 "trail ?m1"] show ?thesis
    proof
      assume e2: "check_collision ?m2 (trail ?m1) = (?m2, False)"
      have "update g = g\<lparr>cycle1 := ?m1, cycle2 := ?m2\<rparr>"
        using assms by (simp add: update_running e1 e2 Let_def)
      then show ?thesis by blast
    next
      assume "alive ?m2 \<and> check_collision ?m2 (trail ?m1) = (?m2\<lparr>alive := False\<rparr>, True)"
      then have al: "alive (cycle2 g)"
        and e2: "check_collision ?m2 (trail ?m1) = (?m2\<lparr>alive := False\<rparr>, True)"
        by (simp_all add: move_alive)
      have "update g = g\<lparr>cycle1 := ?m1, cycle2 := ?m2\<lparr>alive := False\<rparr>, game_over := True,
                      winner := Some (if \<not> alive (cycle1 g) then ''Draw'' else player_name (cycle1 g))\<rparr>"
        using assms by (simp add: update_running e1 e2 Let_def move_alive move_player_name)
      with al show ?thesis by blast
    qed
  next
    assume "alive ?m1 \<and> check_collision ?m1 (trail ?m2) = (?m1\<lparr>alive := False\<rparr>, True)"
    then have al: "alive (cycle1 g)"
      and e1: "check_collision ?m1 (trail ?m2) = (?m1\<lparr>alive := False\<rparr>, True)"
      by (simp_all add: move_alive)
    have "update g = g\<lparr>cycle1 := ?m1\<lparr>alive := False\<rparr>, cycle2 := ?m2, game_over := True,
                      winner := Some (if \<not> alive (cycle2 g) then ''Draw'' else player_name (cycle2 g))\<rparr>"
      using assms by (simp add: update_running e1 Let_def move_alive move_player_name)
    with al show ?thesis by blast
  qed
qed

lemma game_inv_new: "game_inv Game_new"
  by (simp add: game_inv_def Game_new_def Game_init_def LightCycle_init_def Let_def)

lemma game_inv_update: "game_inv g \<Longrightarrow> game_inv (update g)"
proof (cases "game_over g")
  case True
  assume "game_inv g"
  with True show ?thesis by (simp add: update_finished)
next
  case False
  assume "game_inv g"
  with False update_cases [OF False] show ?thesis
    by (auto simp add: game_inv_def move_alive move_player_name move_trail_nonempty)
qed

lemma turn1_step:
  "(case m of Some d \<Rightarrow> if alive (cycle1 g) then g\<lparr>cycle1 := change_direction (cycle1 g) d\<rparr> else g
            | None \<Rightarrow> g)
   = g\<lparr>cycle1 := (case m of Some d \<Rightarrow> change_direction (cycle1 g) d | None \<Rightarrow> cycle1 g)\<rparr>"
  by (cases m) (simp_all add: change_direction_dead)

lemma turn2_step:
  "(case m of Some d \<Rightarrow> if alive (cycle2 g) then g\<lparr>cycle2 := change_direction (cycle2 g) d\<rparr> else g
            | None \<Rightarrow> g)
   = g\<lparr>cycle2 := (case m of Some d \<Rightarrow> change_direction (cycle2 g) d | None \<Rightarrow> cycle2 g)\<rparr>"
  by (cases m) (simp_all add: change_direction_dead)

lemma handle_keydown_eq:
  "handle_keydown g k =
     (if k = K_SPACE \<and> game_over g then Game_new
      else g\<lparr>cycle1 := (case map_of (key_controls (cycle1 g)) k of
                           Some d \<Rightarrow> change_direction (cycle1 g) d | None \<Rightarrow> cycle1 g),
             cycle2 := (case map_of (key_controls (cycle2 g)) k of
                           Some d \<Rightarrow> change_direction (cycle2 g) d | None \<Rightarrow> cycle2 g)\<rparr>)"
  by (simp add: handle_keydown_def Let_def turn1_step turn2_step Game_init_new cong: option.case_cong)

lemma handle_mouse_input_cases:
  "handle_mouse_input g b pos = Game_new \<or> handle_mouse_input g b pos = g"
  by (simp add: handle_mouse_input_def Game_init_new)

lemma game_inv_turn1: "game_inv g \<Longrightarrow> game_inv (g\<lparr>cycle1 := change_direction (cycle1 g) d\<rparr>)"
  by (simp add: game_inv_def change_direction_alive change_direction_trail change_direction_player_name)

lemma game_inv_turn2: "game_inv g \<Longrightarrow> game_inv (g\<lparr>cycle2 := change_direction (cycle2 g) d\<rparr>)"
  by (simp add: game_inv_def change_direction_alive change_direction_trail change_direction_player_name)

lemma game_inv_cycles:
  assumes "game_inv g"
    and "alive c1 = alive (cycle1 g)" and "trail c1 = trail (cycle1 g)"
    and "player_name c1 = player_name (cycle1 g)"
    and "alive c2 = alive (cycle2 g)" and "trail c2 = trail (cycle2 g)"
    and "player_name c2 = player_name (cycle2 g)"
  shows "game_inv (g\<lparr>cycle1 := c1, cycle2 := c2\<rparr>)"
  using assms by (simp add: game_inv_def)

lemma turned_same:
  "alive (case m of Some d \<Rightarrow> change_direction c d | None \<Rightarrow> c) = alive c
   \<and> trail (case m of Some d \<Rightarrow> change_direction c d | None \<Rightarrow> c) = trail c
   \<and> player_name (case m of Some d \<Rightarrow> change_direction c d | None \<Rightarrow> c) = player_name c"
  by (simp add: change_direction_alive change_direction_trail change_direction_player_name
        split: option.split)

lemma game_inv_keydown: "game_inv g \<Longrightarrow> game_inv (handle_keydown g k)"
proof (cases "k = K_SPACE \<and> game_over g")
  case True
  then show ?thesis by (simp add: handle_keydown_eq game_inv_new)
next
  case False
  assume "game_inv g"
  then have "game_inv (g\<lparr>cycle1 := (case map_of (key_controls (cycle1 g)) k of
                           Some d \<Rightarrow> change_direction (cycle1 g) d | None \<Rightarrow> cycle1 g),
             cycle2 := (case map_of (key_controls (cycle2 g)) k of
                           Some d \<Rightarrow> change_direction (cycle2 g) d | None \<Rightarrow> cycle2 g)\<rparr>)"
    by (rule game_inv_cycles) (simp_all only: turned_same)
  with False show ?thesis by (simp only: handle_keydown_eq if_False)
qed

lemma game_inv_apply_op: "game_inv g \<Longrightarrow> game_inv (apply_op a g)"
proof (cases a)
  case Tick
  assume "game_inv g" with Tick show ?thesis by (simp add: game_inv_update)
next
  case (KeyDown k)
  assume "game_inv g" with KeyDown show ?thesis by (simp add: game_inv_keydown)
next
  case (MouseInput b pos)
  assume "game_inv g" with MouseInput handle_mouse_input_cases [of g b pos] game_inv_new
  show ?thesis by auto
next
  case (Turn1 d)
  assume "game_inv g" with Turn1 show ?thesis by (simp add: game_inv_turn1)
next
  case (Turn2 d)
  assume "game_inv g" with Turn2 show ?thesis by (simp add: game_inv_turn2)
next
  case Restart
  then show ?thesis by (simp add: Game_init_new game_inv_new)
qed

lemma run_snoc: "run (ops @ [a]) = apply_op a (run ops)"
  by (simp add: run_def)

lemma game_inv_run: "game_inv (run ops)"
proof (induction ops rule: rev_induct)
  case Nil
  show ?case by (simp add: run_def game_inv_new)
next
  case (snoc a ops)
  then show ?case by (simp add: run_snoc game_inv_apply_op)
qed

lemma draw_never_declared: "winner (run ops) \<noteq> Some ''Draw''"
  using game_inv_run [of ops] by (auto simp add: game_inv_def)

lemma apply_op_restart: "restarts a g \<Longrightarrow> apply_op a g = Game_new"
  by (cases a) (simp_all add: Game_init_new handle_keydown_eq handle_mouse_input_def)

lemma apply_op_finished:
  "game_over g \<Longrightarrow> \<not> restarts a g \<Longrightarrow>
     game_over (apply_op a g) \<and> winner (apply_op a g) = winner g"
  by (cases a) (auto simp add: update_finished handle_keydown_eq handle_mouse_input_def)

lemma apply_op_winner_source:
  "a \<noteq> Tick \<Longrightarrow> \<not> restarts a g \<Longrightarrow>
     winner (apply_op a g) = winner g \<and> game_over (apply_op a g) = game_over g"
  by (cases a) (auto simp add: handle_keydown_eq handle_mouse_input_def)

lemma update_dead1: "\<not> alive (cycle1 g) \<Longrightarrow> cycle1 (update g) = cycle1 g"
  using update_cases [of g] by (cases "game_over g") (auto simp add: update_finished move_dead)

lemma update_dead2: "\<not> alive (cycle2 g) \<Longrightarrow> cycle2 (update g) = cycle2 g"
  using update_cases [of g] by (cases "game_over g") (auto simp add: update_finished move_dead)

lemma turned_dead:
  "\<not> alive c \<Longrightarrow> (case m of Some d \<Rightarrow> change_direction c d | None \<Rightarrow> c) = c"
  by (simp add: change_direction_dead split: option.split)

lemma apply_op_dead1:
  "\<not> alive (cycle1 g) \<Longrightarrow> \<not> restarts a g \<Longrightarrow> cycle1 (apply_op a g) = cycle1 g"
  by (cases a)
     (auto simp add: update_dead1 handle_keydown_eq handle_mouse_input_def turned_dead
        change_direction_dead)

lemma apply_op_dead2:
  "\<not> alive (cycle2 g) \<Longrightarrow> \<not> restarts a g \<Longrightarrow> cycle2 (apply_op a g) = cycle2 g"
  by (cases a)
     (auto simp add: update_dead2 handle_keydown_eq handle_mouse_input_def turned_dead
        change_direction_dead)

lemma slice_to_neg_map_upt: "slice_to_neg k (map f [0..<m]) = map f [0..<m - k]"
  by (simp add: slice_to_neg_take take_map)

lemma Game_new_cycles:
  "cycle1 Game_new = straight_cycle1 0" "cycle2 Game_new = straight_cycle2 0"
  "game_over Game_new = False" "winner Game_new = None"
  by (simp_all add: straight_cycle1_def straight_cycle2_def Game_new_def Game_init_def
        LightCycle_init_def Let_def)

lemma move_straight_cycle1: "move (straight_cycle1 n) = straight_cycle1 (Suc n)"
  by (simp add: move_def straight_cycle1_def Game_new_def Game_init_def LightCycle_init_def Let_def)

lemma move_straight_cycle2: "move (straight_cycle2 n) = straight_cycle2 (Suc n)"
  by (simp add: move_def straight_cycle2_def Game_new_def Game_init_def LightCycle_init_def Let_def)

lemma straight_cycle_fields:
  "x (straight_cycle1 n) = 200 + 5 * int n" "y (straight_cycle1 n) = 300"
  "alive (straight_cycle1 n)" "player_name (straight_cycle1 n) = ''Player 1''"
  "trail (straight_cycle1 n) = map (\<lambda>i. (200 + 5 * int i, 300)) [0..<Suc n]"
  "x (straight_cycle2 n) = 600 - 5 * int n" "y (straight_cycle2 n) = 300"
  "alive (straight_cycle2 n)" "player_name (straight_cycle2 n) = ''Player 2''"
  "trail (straight_cycle2 n) = map (\<lambda>i. (600 - 5 * int i, 300)) [0..<Suc n]"
  by (simp_all add: straight_cycle1_def straight_cycle2_def Game_new_def Game_init_def
        LightCycle_init_def Let_def)

lemma straight_cycle1_clear:
  assumes "n \<le> 39"
  shows "check_collision (straight_cycle1 n) (trail (straight_cycle2 n)) = (straight_cycle1 n, False)"
proof -
  have "\<not> hits (200 + 5 * int n) 300
          (map (\<lambda>i. (600 - 5 * int i, 300)) [0..<Suc n]
           @ slice_to_neg 10 (map (\<lambda>i. (200 + 5 * int i, 300)) [0..<Suc n]))"
    using assms unfolding hits_iff slice_to_neg_map_upt by auto
  with assms show ?thesis
    by (simp add: check_collision_def straight_cycle_fields del: upt_Suc)
qed

lemma straight_cycle2_clear:
  assumes "n \<le> 39"
  shows "check_collision (straight_cycle2 n) (trail (straight_cycle1 n)) = (straight_cycle2 n, False)"
proof -
  have "\<not> hits (600 - 5 * int n) 300
          (map (\<lambda>i. (200 + 5 * int i, 300)) [0..<Suc n]
           @ slice_to_neg 10 (map (\<lambda>i. (600 - 5 * int i, 300)) [0..<Suc n]))"
    using assms unfolding hits_iff slice_to_neg_map_upt by auto
  with assms show ?thesis
    by (simp add: check_collision_def straight_cycle_fields del: upt_Suc)
qed

lemma straight_cycle1_hit:
  "check_collision (straight_cycle1 40) (trail (straight_cycle2 40))
     = ((straight_cycle1 40)\<lparr>alive := False\<rparr>, True)"
proof -
  have "(400, 300) \<in> set (map (\<lambda>i. (600 - 5 * int i, 300)) [0..<Suc 40])"
    by (simp del: upt_Suc add: image_iff)
  then have "hits 400 300
          (map (\<lambda>i. (600 - 5 * int i, 300)) [0..<Suc 40]
           @ slice_to_neg 10 (map (\<lambda>i. (200 + 5 * int i, 300)) [0..<Suc 40]))"
    unfolding hits_iff by (intro bexI [of _ "(400, 300)"]) simp_all
  then show ?thesis
    by (simp add: check_collision_def straight_cycle_fields del: upt_Suc)
qed

lemma straight_cycle2_hit:
  "check_collision (straight_cycle2 40) (trail (straight_cycle1 40))
     = ((straight_cycle2 40)\<lparr>alive := False\<rparr>, True)"
proof -
  have "(400, 300) \<in> set (map (\<lambda>i. (200 + 5 * int i, 300)) [0..<Suc 40])"
    by (simp del: upt_Suc add: image_iff)
  then have "hits 400 300
          (map (\<lambda>i. (200 + 5 * int i, 300)) [0..<Suc 40]
           @ slice_to_neg 10 (map (\<lambda>i. (600 - 5 * int i, 300)) [0..<Suc 40]))"
    unfolding hits_iff by (intro bexI [of _ "(400, 300)"]) simp_all
  then show ?thesis
    by (simp add: check_collision_def straight_cycle_fields del: upt_Suc)
qed

lemma straight_eq:
  "n \<le> 39 \<Longrightarrow> straight n = Game_new\<lparr>cycle1 := straight_cycle1 n, cycle2 := straight_cycle2 n\<rparr>"
proof (induction n)
  case 0
  show ?case by (simp add: straight_def Game_new_cycles [symmetric])
next
  case (Suc n)
  then have ih: "straight n = Game_new\<lparr>cycle1 := straight_cycle1 n, cycle2 := straight_cycle2 n\<rparr>"
    by simp
  have "straight (Suc n) = update (straight n)" by (simp add: straight_def)
  also have "\<dots> = Game_new\<lparr>cycle1 := straight_cycle1 (Suc n), cycle2 := straight_cycle2 (Suc n)\<rparr>"
    using Suc.prems
    by (simp add: ih update_running Game_new_cycles move_straight_cycle1 move_straight_cycle2
          straight_cycle1_clear straight_cycle2_clear Let_def)
  finally show ?case .
qed

lemma straight_40:
  "update (straight 39) =
     Game_new\<lparr>cycle1 := (straight_cycle1 40)\<lparr>alive := False\<rparr>, cycle2 := straight_cycle2 40,
               game_over := True, winner := Some ''Player 2''\<rparr>"
proof -
  have s: "Suc 39 = 40" by simp
  show ?thesis
    by (simp add: straight_eq update_running Game_new_cycles move_straight_cycle1
          move_straight_cycle2 s straight_cycle1_hit straight_cycle_fields(3,4,8,9) Let_def)
qed

lemma run_ticks: "run (replicate n Tick) = straight n"
proof (induction n)
  case 0
  show ?case by (simp add: run_def straight_def)
next
  case (Suc n)
  have "replicate (Suc n) Tick = replicate n Tick @ [Tick]"
    by (simp add: replicate_append_same)
  then have "run (replicate (Suc n) Tick) = update (run (replicate n Tick))"
    by (simp only: run_snoc apply_op.simps)
  with Suc show ?case by (simp add: straight_def)
qed

lemma right_edge_finished:
  "update right_edge_game =
     Game_new\<lparr>cycle1 := (cycle1 Game_new)\<lparr>x := 805, trail := [(800, 300), (805, 300)], alive := False\<rparr>,
               cycle2 := (cycle2 Game_new)\<lparr>x := 595, trail := [(600, 300), (595, 300)]\<rparr>,
               game_over := True, winner := Some ''Player 2''\<rparr>"
  by (simp add: right_edge_game_def update_def Game_new_def Game_init_def LightCycle_init_def
        move_def check_collision_def Let_def)

lemma left_edge_finished:
  "update left_edge_game =
     Game_new\<lparr>cycle1 := (cycle1 Game_new)\<lparr>x := 205, trail := [(200, 300), (205, 300)]\<rparr>,
               cycle2 := (cycle2 Game_new)\<lparr>x := - 5, trail := [(0, 300), (- 5, 300)], alive := False\<rparr>,
               game_over := True, winner := Some ''Player 1''\<rparr>"
  by (simp add: left_edge_game_def update_def Game_new_def Game_init_def LightCycle_init_def
        move_def check_collision_def slice_to_neg_def Let_def)

lemma Game_new_explicit:
  "Game_new =
     \<lparr>player1_controls = [(K_w, UP), (K_s, DOWN), (K_a, LEFT), (K_d, RIGHT)],
      player2_controls = [(K_UP, UP), (K_DOWN, DOWN), (K_LEFT, LEFT), (K_RIGHT, RIGHT)],
      cycle1 = \<lparr>x = 200, y = 300, color = (0, 255, 255), direction = RIGHT, trail = [(200, 300)],
                key_controls = [(K_w, UP), (K_s, DOWN), (K_a, LEFT), (K_d, RIGHT)],
                player_name = ''Player 1'', speed = 5, alive = True\<rparr>,
      cycle2 = \<lparr>x = 600, y = 300, color = (255, 255, 0), direction = LEFT, trail = [(600, 300)],
                key_controls = [(K_UP, UP), (K_DOWN, DOWN), (K_LEFT, LEFT), (K_RIGHT, RIGHT)],
                player_name = ''Player 2'', speed = 5, alive = True\<rparr>,
      game_over = False, winner = None\<rparr>"
  by (simp add: Game_new_def Game_init_def LightCycle_init_def Let_def)

lemma edge_facts:
  "alive (LightCycle_init x0 y0 col d kc nm)"
  "x (LightCycle_init x0 y0 col d kc nm) = x0"
  "\<not> game_over right_edge_game" "alive (cycle1 right_edge_game)"
  "out_of_bounds (move (cycle1 right_edge_game))"
  "\<not> game_over left_edge_game" "alive (cycle2 left_edge_game)"
  "out_of_bounds (move (cycle2 left_edge_game))"
  by (simp_all add: right_edge_game_def left_edge_game_def Game_new_explicit LightCycle_init_def
        move_def out_of_bounds_def)

lemma right_edge_after:
  "game_over (update right_edge_game)"
  "winner (update right_edge_game) = Some ''Player 2''"
  "\<not> alive (cycle1 (update right_edge_game))"
  "alive (cycle2 (update right_edge_game))"
  "direction (cycle2 (update right_edge_game)) = LEFT"
  "key_controls (cycle1 (update right_edge_game)) = [(K_w, UP), (K_s, DOWN), (K_a, LEFT), (K_d, RIGHT)]"
  "key_controls (cycle2 (update right_edge_game)) = [(K_UP, UP), (K_DOWN, DOWN), (K_LEFT, LEFT), (K_RIGHT, RIGHT)]"
  "trail (cycle1 (update right_edge_game)) = [(800, 300), (805, 300)]"
  "trail (cycle2 (update right_edge_game)) = [(600, 300), (595, 300)]"
  by (simp_all add: right_edge_finished Game_new_explicit)

lemma left_edge_after:
  "game_over (update left_edge_game)"
  "winner (update left_edge_game) = Some ''Player 1''"
  "alive (cycle1 (update left_edge_game))"
  "\<not> alive (cycle2 (update left_edge_game))"
  by (simp_all add: left_edge_finished Game_new_explicit)

lemma turn_facts:
  "K_UP \<noteq> K_SPACE" "K_w \<noteq> K_SPACE"
  "map_of (key_controls (cycle2 (update right_edge_game))) K_UP = Some UP"
  "map_of (key_controls (cycle1 (update right_edge_game))) K_w = Some UP"
  "\<not> opposite (direction (cycle2 (update right_edge_game))) UP"
  by (simp_all add: right_edge_after opposite_def)

lemma frame_facts:
  "alive (cycle1 Game_new)"
  "check_collision (cycle1 Game_new) [(202, 301)] = ((cycle1 Game_new)\<lparr>alive := False\<rparr>, True)"
  "check_collision (cycle1 Game_new) [(600, 300)] = (cycle1 Game_new, False)"
  by (simp_all add: Game_new_explicit check_collision_def slice_to_neg_def)

lemma run_facts:
  "trail (cycle1 (run ops)) \<noteq> []" "trail (cycle2 (run ops)) \<noteq> []"
  "game_over (run ops) = (winner (run ops) \<noteq> None)"
  "\<not> game_over (run ops) \<Longrightarrow> alive (cycle1 (run ops)) \<and> alive (cycle2 (run ops))"
  "game_over (run ops) \<Longrightarrow> \<not> alive (cycle1 (run ops)) \<or> \<not> alive (cycle2 (run ops))"
  using game_inv_run [of ops] by (auto simp add: game_inv_def)

lemma winner_set_by_tick:
  assumes "\<not> game_over (run ops)" and "winner (apply_op a (run ops)) \<noteq> None"
  shows "a = Tick"
proof (rule ccontr)
  assume n: "a \<noteq> Tick"
  have w: "winner (run ops) = None" using assms(1) run_facts(3) [of ops] by simp
  show False
  proof (cases "restarts a (run ops)")
    case True
    then have "apply_op a (run ops) = Game_new" by (rule apply_op_restart)
    with assms(2) show False by (simp add: Game_new_explicit)
  next
    case False
    with n have "winner (apply_op a (run ops)) = winner (run ops)"
      by (simp add: apply_op_winner_source)
    with w assms(2) show False by simp
  qed
qed

lemma head_on_facts:
  "\<not> game_over (run (replicate 39 Tick))"
  "alive (cycle1 (run (replicate 39 Tick)))"
  "winner (apply_op Tick (run (replicate 39 Tick))) \<noteq> None"
  "game_over (run (replicate 40 Tick))"
  "\<not> alive (cycle1 (run (replicate 40 Tick)))"
  "winner (run (replicate 40 Tick)) = Some ''Player 2''"
proof -
  have s: "straight 40 = update (straight 39)"
  proof -
    have "(40::nat) = Suc 39" by simp
    then show ?thesis by (simp only: straight_def funpow.simps o_apply)
  qed
  have e: "straight 39 = Game_new\<lparr>cycle1 := straight_cycle1 39, cycle2 := straight_cycle2 39\<rparr>"
    by (simp add: straight_eq)
  show "\<not> game_over (run (replicate 39 Tick))"
    by (simp add: run_ticks e Game_new_cycles)
  show "alive (cycle1 (run (replicate 39 Tick)))"
    by (simp add: run_ticks e straight_cycle_fields(3))
  show "winner (apply_op Tick (run (replicate 39 Tick))) \<noteq> None"
    by (simp add: run_ticks straight_40)
  show "game_over (run (replicate 40 Tick))"
    by (simp add: run_ticks s straight_40)
  show "\<not> alive (cycle1 (run (replicate 40 Tick)))"
    by (simp add: run_ticks s straight_40)
  show "winner (run (replicate 40 Tick)) = Some ''Player 2''"
    by (simp add: run_ticks s straight_40)
qed

text \<open>
  The outcome of a frame that starts with two live cycles, by what the two checks
  return after the moves: whenever the first cycle's check returns true the winner is
  the second cycle's name and the second cycle stays alive, whatever its own check
  would return; when only the second cycle's check returns true the winner is the first
  cycle's name.
\<close>

lemma collision_outcomes:
  assumes "\<not> game_over g" and "alive (cycle1 g)" and "alive (cycle2 g)"
  shows "snd (check_collision (move (cycle1 g)) (trail (move (cycle2 g)))) \<Longrightarrow>
           game_over (update g) \<and> winner (update g) = Some (player_name (cycle2 g))
           \<and> alive (cycle2 (update g)) \<and> \<not> alive (cycle1 (update g))"
    and "\<not> snd (check_collision (move (cycle1 g)) (trail (move (cycle2 g)))) \<Longrightarrow>
         snd (check_collision (move (cycle2 g)) (trail (move (cycle1 g)))) \<Longrightarrow>
           game_over (update g) \<and> winner (update g) = Some (player_name (cycle1 g))
           \<and> alive (cycle1 (update g)) \<and> \<not> alive (cycle2 (update g))"
proof -
  let ?m1 = "move (cycle1 g)" and ?m2 = "move (cycle2 g)"
  {
    assume r: "snd (check_collision ?m1 (trail ?m2))"
    with check_collision_cases [of ?m1 "trail ?m2"]
    have e1: "check_collision ?m1 (trail ?m2) = (?m1\<lparr>alive := False\<rparr>, True)" by auto
    show "game_over (update g) \<and> winner (update g) = Some (player_name (cycle2 g))
           \<and> alive (cycle2 (update g)) \<and> \<not> alive (cycle1 (update g))"
      using assms by (simp add: update_running e1 Let_def move_alive move_player_name)
  }
  {
    assume n: "\<not> snd (check_collision ?m1 (trail ?m2))"
      and r: "snd (check_collision ?m2 (trail ?m1))"
    from n check_collision_cases [of ?m1 "trail ?m2"]
    have e1: "check_collision ?m1 (trail ?m2) = (?m1, False)" by auto
    from r check_collision_cases [of ?m2 "trail ?m1"]
    have e2: "check_collision ?m2 (trail ?m1) = (?m2\<lparr>alive := False\<rparr>, True)" by auto
    show "game_over (update g) \<and> winner (update g) = Some (player_name (cycle1 g))
           \<and> alive (cycle1 (update g)) \<and> \<not> alive (cycle2 (update g))"
      using assms by (simp add: update_running e1 e2 Let_def move_alive move_player_name)
  }
qed

lemma slice_to_neg_Cons_map_upt:
  "slice_to_neg k (p # map f [0..<m]) = take (Suc m - k) (p # map f [0..<m])"
  by (simp add: slice_to_neg_take)

lemma set_take_Cons_map_upt:
  "set (take j (p # map f [0..<m])) \<subseteq> insert p (f ` {i. Suc i < j \<and> i < m})"
proof (cases j)
  case 0
  then show ?thesis by simp
next
  case (Suc j')
  have "take j' (map f [0..<m]) = map f [0..<min j' m]"
    by (simp add: take_map min_def)
  with Suc show ?thesis by auto
qed

lemma turned_eq:
  "run [KeyDown K_w, KeyDown K_UP, Tick, KeyDown K_a, KeyDown K_RIGHT]
     = Game_new\<lparr>cycle1 := apart_cycle1 0, cycle2 := apart_cycle2 0\<rparr>"
  by (simp add: run_def handle_keydown_eq Game_new_explicit change_direction_def update_def
        move_def check_collision_def slice_to_neg_def apart_cycle1_def apart_cycle2_def Let_def)

lemma move_apart_cycle1: "move (apart_cycle1 n) = apart_cycle1 (Suc n)"
  by (simp add: move_def apart_cycle1_def Game_new_explicit Let_def)

lemma move_apart_cycle2: "move (apart_cycle2 n) = apart_cycle2 (Suc n)"
  by (simp add: move_def apart_cycle2_def Game_new_explicit Let_def)

lemma apart_cycle_fields:
  "x (apart_cycle1 n) = 200 - 5 * int n" "y (apart_cycle1 n) = 295"
  "alive (apart_cycle1 n)" "player_name (apart_cycle1 n) = ''Player 1''"
  "trail (apart_cycle1 n) = (200, 300) # map (\<lambda>i. (200 - 5 * int i, 295)) [0..<Suc n]"
  "x (apart_cycle2 n) = 600 + 5 * int n" "y (apart_cycle2 n) = 295"
  "alive (apart_cycle2 n)" "player_name (apart_cycle2 n) = ''Player 2''"
  "trail (apart_cycle2 n) = (600, 300) # map (\<lambda>i. (600 + 5 * int i, 295)) [0..<Suc n]"
  by (simp_all add: apart_cycle1_def apart_cycle2_def Game_new_explicit)

lemma apart_cycle1_clear:
  assumes "n \<le> 40"
  shows "check_collision (apart_cycle1 n) (trail (apart_cycle2 n)) = (apart_cycle1 n, False)"
proof -
  have own: "\<not> (\<bar>200 - 5 * int n - fst p\<bar> < 5 \<and> \<bar>295 - snd p\<bar> < 5)"
    if "p \<in> set (slice_to_neg 10 ((200, 300) # map (\<lambda>i. (200 - 5 * int i, 295)) [0..<Suc n]))" for p
    using that set_take_Cons_map_upt [of "Suc (Suc n) - 10" "(200, 300)" "\<lambda>i. (200 - 5 * int i, 295)" "Suc n"]
    unfolding slice_to_neg_Cons_map_upt by auto
  have other: "\<not> (\<bar>200 - 5 * int n - fst p\<bar> < 5 \<and> \<bar>295 - snd p\<bar> < 5)"
    if "p \<in> set ((600, 300) # map (\<lambda>i. (600 + 5 * int i, 295)) [0..<Suc n])" for p
    using that by auto
  have "\<not> hits (200 - 5 * int n) 295
          (((600, 300) # map (\<lambda>i. (600 + 5 * int i, 295)) [0..<Suc n])
           @ slice_to_neg 10 ((200, 300) # map (\<lambda>i. (200 - 5 * int i, 295)) [0..<Suc n]))"
    unfolding hits_iff using own other by (auto simp del: upt_Suc)
  with assms show ?thesis
    by (simp add: check_collision_def apart_cycle_fields del: upt_Suc)
qed

lemma apart_cycle2_clear:
  assumes "n \<le> 40"
  shows "check_collision (apart_cycle2 n) (trail (apart_cycle1 n)) = (apart_cycle2 n, False)"
proof -
  have own: "\<not> (\<bar>600 + 5 * int n - fst p\<bar> < 5 \<and> \<bar>295 - snd p\<bar> < 5)"
    if "p \<in> set (slice_to_neg 10 ((600, 300) # map (\<lambda>i. (600 + 5 * int i, 295)) [0..<Suc n]))" for p
    using that set_take_Cons_map_upt [of "Suc (Suc n) - 10" "(600, 300)" "\<lambda>i. (600 + 5 * int i, 295)" "Suc n"]
    unfolding slice_to_neg_Cons_map_upt by auto
  have other: "\<not> (\<bar>600 + 5 * int n - fst p\<bar> < 5 \<and> \<bar>295 - snd p\<bar> < 5)"
    if "p \<in> set ((200, 300) # map (\<lambda>i. (200 - 5 * int i, 295)) [0..<Suc n])" for p
    using that by auto
  have "\<not> hits (600 + 5 * int n) 295
          (((200, 300) # map (\<lambda>i. (200 - 5 * int i, 295)) [0..<Suc n])
           @ slice_to_neg 10 ((600, 300) # map (\<lambda>i. (600 + 5 * int i, 295)) [0..<Suc n]))"
    unfolding hits_iff using own other by (auto simp del: upt_Suc)
  with assms show ?thesis
    by (simp add: check_collision_def apart_cycle_fields del: upt_Suc)
qed

lemma apart_eq:
  "n \<le> 40 \<Longrightarrow>
     (update ^^ n) (Game_new\<lparr>cycle1 := apart_cycle1 0, cycle2 := apart_cycle2 0\<rparr>)
       = Game_new\<lparr>cycle1 := apart_cycle1 n, cycle2 := apart_cycle2 n\<rparr>"
proof (induction n)
  case 0
  show ?case by simp
next
  case (Suc n)
  then have ih: "(update ^^ n) (Game_new\<lparr>cycle1 := apart_cycle1 0, cycle2 := apart_cycle2 0\<rparr>)
       = Game_new\<lparr>cycle1 := apart_cycle1 n, cycle2 := apart_cycle2 n\<rparr>"
    by simp
  have "update (Game_new\<lparr>cycle1 := apart_cycle1 n, cycle2 := apart_cycle2 n\<rparr>)
          = Game_new\<lparr>cycle1 := apart_cycle1 (Suc n), cycle2 := apart_cycle2 (Suc n)\<rparr>"
    using Suc.prems
    by (simp add: update_running Game_new_cycles move_apart_cycle1 move_apart_cycle2
          apart_cycle1_clear apart_cycle2_clear Let_def)
  with ih show ?case by simp
qed

lemma run_append_ticks: "run (ops @ replicate n Tick) = (update ^^ n) (run ops)"
proof (induction n)
  case 0
  show ?case by simp
next
  case (Suc n)
  have "ops @ replicate (Suc n) Tick = (ops @ replicate n Tick) @ [Tick]"
    by (simp add: replicate_append_same)
  then have "run (ops @ replicate (Suc n) Tick) = update (run (ops @ replicate n Tick))"
    by (simp only: run_snoc apply_op.simps)
  with Suc show ?case by simp
qed

lemma run_apart_ops:
  "run apart_ops = Game_new\<lparr>cycle1 := apart_cycle1 40, cycle2 := apart_cycle2 40\<rparr>"
  by (simp only: apart_ops_def run_append_ticks turned_eq apart_eq order_refl)

lemma apart_last:
  "update (run apart_ops) =
     Game_new\<lparr>cycle1 := (apart_cycle1 41)\<lparr>alive := False\<rparr>, cycle2 := apart_cycle2 41,
               game_over := True, winner := Some ''Player 2''\<rparr>"
proof -
  have s: "Suc 40 = 41" by simp
  have o: "out_of_bounds (apart_cycle1 41)"
    by (simp add: out_of_bounds_def apart_cycle_fields)
  have e1: "check_collision (apart_cycle1 41) t = ((apart_cycle1 41)\<lparr>alive := False\<rparr>, True)" for t
    using o by (simp add: check_collision_oob apart_cycle_fields(3))
  show ?thesis
    by (simp add: run_apart_ops update_running Game_new_cycles move_apart_cycle1 move_apart_cycle2
          s e1 apart_cycle_fields(3,4,8,9) Let_def)
qed

section \<open>Properties of a single cycle\<close>

text \<open>
  C3. A live cycle's \<^verbatim>\<open>move\<close> puts the position at the old position plus the
  direction vector times the speed, appends exactly that position to the trail (so the
  last trail entry is the position and the trail is one longer) and touches nothing
  else; the constructor sets the speed to 5 and \<^verbatim>\<open>move\<close> keeps it; a dead cycle is
  returned as it is. A cycle built at (200,300) heading RIGHT is at (205,300) after one
  move, with trail [(200,300),(205,300)].
\<close>

theorem move_spec:
  "(alive c \<longrightarrow>
      x (move c) = x c + fst (Direction_value (direction c)) * speed c
    \<and> y (move c) = y c + snd (Direction_value (direction c)) * speed c
    \<and> trail (move c) = trail c @ [(x (move c), y (move c))]
    \<and> last (trail (move c)) = (x (move c), y (move c))
    \<and> length (trail (move c)) = length (trail c) + 1
    \<and> move c = c\<lparr>x := x (move c), y := y (move c), trail := trail (move c)\<rparr>)
   \<and> (alive c \<and> speed c = 5 \<longrightarrow>
        (x (move c), y (move c)) =
          (x c + 5 * fst (Direction_value (direction c)), y c + 5 * snd (Direction_value (direction c))))
   \<and> (\<not> alive c \<longrightarrow> move c = c)
   \<and> speed (LightCycle_init x0 y0 col d kc nm) = 5
   \<and> speed (move c) = speed c
   \<and> move (LightCycle_init 200 300 col RIGHT kc nm) =
       (LightCycle_init 200 300 col RIGHT kc nm)\<lparr>x := 205, trail := [(200, 300), (205, 300)]\<rparr>"
  by (simp add: move_def LightCycle_init_def Let_def split: prod.split)

theorem move_spec_witness:
  "alive (LightCycle_init 200 300 (0, 255, 255) RIGHT [] ''Player 1'')
   \<and> speed (LightCycle_init 200 300 (0, 255, 255) RIGHT [] ''Player 1'') = 5
   \<and> x (move (LightCycle_init 200 300 (0, 255, 255) RIGHT [] ''Player 1'')) = 205
   \<and> y (move (LightCycle_init 200 300 (0, 255, 255) RIGHT [] ''Player 1'')) = 300
   \<and> trail (move (LightCycle_init 200 300 (0, 255, 255) RIGHT [] ''Player 1''))
       = [(200, 300), (205, 300)]
   \<and> \<not> alive ((LightCycle_init 200 300 (0, 255, 255) RIGHT [] ''Player 1'')\<lparr>alive := False\<rparr>)
   \<and> move ((LightCycle_init 200 300 (0, 255, 255) RIGHT [] ''Player 1'')\<lparr>alive := False\<rparr>)
       = (LightCycle_init 200 300 (0, 255, 255) RIGHT [] ''Player 1'')\<lparr>alive := False\<rparr>"
  using move_spec [of "LightCycle_init 200 300 (0, 255, 255) RIGHT [] ''Player 1''"]
        move_spec [of "(LightCycle_init 200 300 (0, 255, 255) RIGHT [] ''Player 1'')\<lparr>alive := False\<rparr>"]
  by (simp add: LightCycle_init_def)

text \<open>
  C4. For a live cycle and any requested direction: a request for the exact opposite
  of the current direction (the vectors are negations of each other) leaves the
  direction as it is; every other request, the current direction included, becomes the
  direction.
\<close>

theorem change_direction_spec:
  "alive c \<Longrightarrow>
     (opposite (direction c) D \<longrightarrow> direction (change_direction c D) = direction c)
   \<and> (\<not> opposite (direction c) D \<longrightarrow> direction (change_direction c D) = D)
   \<and> \<not> opposite D D"
  by (cases D; cases "direction c") (simp_all add: change_direction_def opposite_def)

theorem change_direction_spec_witness:
  "alive (LightCycle_init 200 300 (0, 255, 255) RIGHT [] ''Player 1'')
   \<and> opposite RIGHT LEFT
   \<and> direction (change_direction (LightCycle_init 200 300 (0, 255, 255) RIGHT [] ''Player 1'') LEFT) = RIGHT
   \<and> \<not> opposite RIGHT UP
   \<and> direction (change_direction (LightCycle_init 200 300 (0, 255, 255) RIGHT [] ''Player 1'') UP) = UP
   \<and> direction (change_direction (LightCycle_init 200 300 (0, 255, 255) RIGHT [] ''Player 1'') RIGHT) = RIGHT"
  using change_direction_spec [of "LightCycle_init 200 300 (0, 255, 255) RIGHT [] ''Player 1''" LEFT]
        change_direction_spec [of "LightCycle_init 200 300 (0, 255, 255) RIGHT [] ''Player 1''" UP]
        change_direction_spec [of "LightCycle_init 200 300 (0, 255, 255) RIGHT [] ''Player 1''" RIGHT]
  by (simp add: LightCycle_init_def opposite_def)

text \<open>
  C2. For a live cycle inside the playfield, \<^verbatim>\<open>check_collision\<close> scans the whole of
  the other trail followed by the cycle's own trail without its last
  \<open>min 10 (length trail)\<close> entries. It returns true and clears the alive flag exactly
  when some scanned point is less than 5 away from the position on both axes, and
  returns false and leaves the cycle as it is otherwise. With fewer than 10 points in
  its own trail and an empty other trail it returns false. The slice \<^verbatim>\<open>trail[:-10]\<close>
  is defined for a trail of any length: it and the last \<open>min 10 (length trail)\<close>
  entries make up the trail.
\<close>

theorem check_collision_scan:
  assumes "alive c" and "0 \<le> x c" and "x c \<le> 800" and "0 \<le> y c" and "y c \<le> 600"
  shows "check_collision c other_trail =
           (if \<exists>p \<in> set (other_trail @ take (length (trail c) - min 10 (length (trail c))) (trail c)).
                 \<bar>x c - fst p\<bar> < 5 \<and> \<bar>y c - snd p\<bar> < 5
            then (c\<lparr>alive := False\<rparr>, True) else (c, False))
         \<and> (length (trail c) < 10 \<longrightarrow> check_collision c [] = (c, False))
         \<and> slice_to_neg 10 (trail c) = take (length (trail c) - min 10 (length (trail c))) (trail c)
         \<and> slice_to_neg 10 (trail c) @ drop (length (trail c) - min 10 (length (trail c))) (trail c) = trail c
         \<and> length (drop (length (trail c) - min 10 (length (trail c))) (trail c)) = min 10 (length (trail c))"
proof -
  have s: "slice_to_neg 10 (trail c) = take (length (trail c) - min 10 (length (trail c))) (trail c)"
    by (rule slice_to_neg_min)
  have a: "check_collision c other_trail =
           (if \<exists>p \<in> set (other_trail @ take (length (trail c) - min 10 (length (trail c))) (trail c)).
                 \<bar>x c - fst p\<bar> < 5 \<and> \<bar>y c - snd p\<bar> < 5
            then (c\<lparr>alive := False\<rparr>, True) else (c, False))"
    using assms unfolding check_collision_def hits_iff s by simp
  have b: "length (trail c) < 10 \<longrightarrow> check_collision c [] = (c, False)"
    using assms by (simp add: check_collision_def slice_to_neg_short)
  have d: "slice_to_neg 10 (trail c) @ drop (length (trail c) - min 10 (length (trail c))) (trail c) = trail c"
    unfolding s by (rule append_take_drop_id)
  have e: "length (drop (length (trail c) - min 10 (length (trail c))) (trail c)) = min 10 (length (trail c))"
    by (simp add: min_def)
  from a b s d e show ?thesis by blast
qed

theorem check_collision_scan_witness:
  "alive (LightCycle_init 400 300 (0, 255, 255) RIGHT [] ''Player 1'')
   \<and> (0::int) \<le> 400 \<and> (400::int) \<le> 800 \<and> (0::int) \<le> 300 \<and> (300::int) \<le> 600
   \<and> check_collision (LightCycle_init 400 300 (0, 255, 255) RIGHT [] ''Player 1'') [(500, 300), (402, 298)]
       = ((LightCycle_init 400 300 (0, 255, 255) RIGHT [] ''Player 1'')\<lparr>alive := False\<rparr>, True)
   \<and> check_collision (LightCycle_init 400 300 (0, 255, 255) RIGHT [] ''Player 1'') [(500, 300), (405, 300)]
       = (LightCycle_init 400 300 (0, 255, 255) RIGHT [] ''Player 1'', False)
   \<and> check_collision (LightCycle_init 400 300 (0, 255, 255) RIGHT [] ''Player 1'') []
       = (LightCycle_init 400 300 (0, 255, 255) RIGHT [] ''Player 1'', False)"
  using check_collision_scan [of "LightCycle_init 400 300 (0, 255, 255) RIGHT [] ''Player 1''" "[(500, 300), (402, 298)]"]
        check_collision_scan [of "LightCycle_init 400 300 (0, 255, 255) RIGHT [] ''Player 1''" "[(500, 300), (405, 300)]"]
        check_collision_scan [of "LightCycle_init 400 300 (0, 255, 255) RIGHT [] ''Player 1''" "[]"]
  by (simp add: LightCycle_init_def)

text \<open>
  C10. \<^verbatim>\<open>check_collision\<close> changes nothing of the cycle but possibly the alive
  flag: position, direction, trail, speed, name, colour and controls are as before. For
  a live cycle the flag is cleared exactly when the call returns true; for a dead cycle
  the call returns false and the cycle is as before. The trail passed as argument is
  only read: in \<^verbatim>\<open>update\<close> both trails after the checks are the trails after the
  moves.
\<close>

theorem check_collision_frame:
  "x (fst (check_collision c other_trail)) = x c
   \<and> y (fst (check_collision c other_trail)) = y c
   \<and> direction (fst (check_collision c other_trail)) = direction c
   \<and> trail (fst (check_collision c other_trail)) = trail c
   \<and> speed (fst (check_collision c other_trail)) = speed c
   \<and> player_name (fst (check_collision c other_trail)) = player_name c
   \<and> color (fst (check_collision c other_trail)) = color c
   \<and> key_controls (fst (check_collision c other_trail)) = key_controls c
   \<and> fst (check_collision c other_trail) = c\<lparr>alive := alive (fst (check_collision c other_trail))\<rparr>
   \<and> (alive c \<longrightarrow> (alive (fst (check_collision c other_trail)) = (\<not> snd (check_collision c other_trail))))
   \<and> (\<not> alive c \<longrightarrow> check_collision c other_trail = (c, False))
   \<and> (\<not> game_over g \<longrightarrow> trail (cycle1 (update g)) = trail (move (cycle1 g))
                          \<and> trail (cycle2 (update g)) = trail (move (cycle2 g)))"
proof -
  have f: "fst (check_collision c t) = c \<or> fst (check_collision c t) = c\<lparr>alive := False\<rparr>" for c t
    by (simp add: check_collision_def)
  have tr: "trail (fst (check_collision c t)) = trail c" for c t
    using f [of c t] by auto
  have u: "\<not> game_over g \<longrightarrow> trail (cycle1 (update g)) = trail (move (cycle1 g))
                          \<and> trail (cycle2 (update g)) = trail (move (cycle2 g))"
    by (simp add: update_running Let_def tr)
  have rest: "x (fst (check_collision c other_trail)) = x c
   \<and> y (fst (check_collision c other_trail)) = y c
   \<and> direction (fst (check_collision c other_trail)) = direction c
   \<and> trail (fst (check_collision c other_trail)) = trail c
   \<and> speed (fst (check_collision c other_trail)) = speed c
   \<and> player_name (fst (check_collision c other_trail)) = player_name c
   \<and> color (fst (check_collision c other_trail)) = color c
   \<and> key_controls (fst (check_collision c other_trail)) = key_controls c
   \<and> fst (check_collision c other_trail) = c\<lparr>alive := alive (fst (check_collision c other_trail))\<rparr>
   \<and> (alive c \<longrightarrow> (alive (fst (check_collision c other_trail)) = (\<not> snd (check_collision c other_trail))))
   \<and> (\<not> alive c \<longrightarrow> check_collision c other_trail = (c, False))"
    by (simp add: check_collision_def)
  from rest u show ?thesis by blast
qed

theorem check_collision_frame_witness:
  "alive (cycle1 Game_new)
   \<and> check_collision (cycle1 Game_new) [(202, 301)] = ((cycle1 Game_new)\<lparr>alive := False\<rparr>, True)
   \<and> check_collision (cycle1 Game_new) [(600, 300)] = (cycle1 Game_new, False)
   \<and> \<not> alive (cycle1 (update right_edge_game))
   \<and> check_collision (cycle1 (update right_edge_game)) [(805, 300)]
        = (cycle1 (update right_edge_game), False)
   \<and> \<not> game_over right_edge_game
   \<and> trail (cycle1 (update right_edge_game)) = trail (move (cycle1 right_edge_game))
   \<and> trail (cycle2 (update right_edge_game)) = trail (move (cycle2 right_edge_game))"
  using check_collision_frame [of "cycle1 Game_new" "[(202, 301)]" right_edge_game]
        check_collision_frame [of "cycle1 (update right_edge_game)" "[(805, 300)]" right_edge_game]
        frame_facts right_edge_after(3) edge_facts(3)
  by blast

section \<open>Properties of the game\<close>

text \<open>
  C1. The frame in which both cycles would report a collision. The game that starts
  fresh and runs 39 frames with nobody steering has the cycles at (395,300) and
  (405,300), both alive. In the next frame both move to (400,300), and each cycle's
  check against the other's trail returns true. \<^verbatim>\<open>update\<close> runs the first check
  only: the first cycle is dead, the second cycle is still alive, and the winner is
  \<open>''Player 2''\<close>, not \<open>''Draw''\<close>.
\<close>

theorem draw_missed:
  "\<not> game_over (straight 39)
   \<and> alive (cycle1 (straight 39)) \<and> alive (cycle2 (straight 39))
   \<and> (x (cycle1 (straight 39)), y (cycle1 (straight 39))) = (395, 300)
   \<and> (x (cycle2 (straight 39)), y (cycle2 (straight 39))) = (405, 300)
   \<and> snd (check_collision (move (cycle1 (straight 39))) (trail (move (cycle2 (straight 39)))))
   \<and> snd (check_collision (move (cycle2 (straight 39))) (trail (move (cycle1 (straight 39)))))
   \<and> game_over (update (straight 39))
   \<and> winner (update (straight 39)) = Some ''Player 2''
   \<and> winner (update (straight 39)) \<noteq> Some ''Draw''
   \<and> \<not> alive (cycle1 (update (straight 39)))
   \<and> alive (cycle2 (update (straight 39)))"
proof -
  have s: "Suc 39 = 40" by simp
  have e: "straight 39 = Game_new\<lparr>cycle1 := straight_cycle1 39, cycle2 := straight_cycle2 39\<rparr>"
    by (simp add: straight_eq)
  show ?thesis
    unfolding straight_40
    by (simp add: e Game_new_cycles move_straight_cycle1 move_straight_cycle2 s
          straight_cycle1_hit straight_cycle2_hit straight_cycle_fields(1-4,6-9))
qed

text \<open>
  C5. An out-of-bounds cycle in a frame of the game. \<^verbatim>\<open>check_collision\<close> itself
  marks a live cycle outside the playfield dead and returns true, whatever the trails
  hold. In the game where both cycles turn up, move one frame, turn away from each
  other and run 40 frames, the cycles are at (0,295) and (800,295), both alive. In the
  next frame the first cycle moves to (-5,295) and the second to (805,295); the second
  cycle's check would return true, but \<^verbatim>\<open>update\<close> stops after the first cycle's
  check: the second cycle, at \<open>x = 805\<close>, is still alive and is named the winner.
\<close>

theorem out_of_bounds_missed:
  "\<not> game_over (run apart_ops)
   \<and> alive (cycle1 (run apart_ops)) \<and> alive (cycle2 (run apart_ops))
   \<and> (x (cycle1 (run apart_ops)), y (cycle1 (run apart_ops))) = (0, 295)
   \<and> (x (cycle2 (run apart_ops)), y (cycle2 (run apart_ops))) = (800, 295)
   \<and> (x (move (cycle2 (run apart_ops))), y (move (cycle2 (run apart_ops)))) = (805, 295)
   \<and> alive (move (cycle2 (run apart_ops)))
   \<and> snd (check_collision (move (cycle2 (run apart_ops))) (trail (move (cycle1 (run apart_ops)))))
   \<and> game_over (update (run apart_ops))
   \<and> (x (cycle2 (update (run apart_ops))), y (cycle2 (update (run apart_ops)))) = (805, 295)
   \<and> alive (cycle2 (update (run apart_ops)))
   \<and> \<not> alive (cycle1 (update (run apart_ops)))
   \<and> winner (update (run apart_ops)) = Some ''Player 2''"
proof -
  have s: "Suc 40 = 41" by simp
  have o: "out_of_bounds (apart_cycle2 41)"
    by (simp add: out_of_bounds_def apart_cycle_fields)
  have e2: "check_collision (apart_cycle2 41) t = ((apart_cycle2 41)\<lparr>alive := False\<rparr>, True)" for t
    using o by (simp add: check_collision_oob apart_cycle_fields(8))
  show ?thesis
    unfolding apart_last
    by (simp add: run_apart_ops Game_new_cycles move_apart_cycle1 move_apart_cycle2 s e2
          apart_cycle_fields(1-4,6-9))
qed

text \<open>
  C6. In a finished game any number of calls of \<^verbatim>\<open>update\<close> changes nothing: the
  game after the calls is the game before, with both cycles (position, direction,
  trail, alive flag), the finished flag and the winner as they were.
\<close>

theorem tick_after_finished:
  "game_over g \<Longrightarrow>
     (update ^^ n) g = g
   \<and> cycle1 ((update ^^ n) g) = cycle1 g \<and> cycle2 ((update ^^ n) g) = cycle2 g
   \<and> game_over ((update ^^ n) g) \<and> winner ((update ^^ n) g) = winner g"
proof -
  assume f: "game_over g"
  have "(update ^^ n) g = g"
    by (induction n) (simp_all add: update_finished f)
  with f show ?thesis by simp
qed

theorem tick_after_finished_witness:
  "game_over (update right_edge_game)
   \<and> (update ^^ 3) (update right_edge_game) = update right_edge_game
   \<and> winner ((update ^^ 3) (update right_edge_game)) = Some ''Player 2''"
  using tick_after_finished [of "update right_edge_game" 3]
  by (simp add: right_edge_after)

text \<open>
  C7. Whatever the game was, \<^verbatim>\<open>__init__\<close> run on it again gives the initial
  configuration: the first cycle at (200,300) heading RIGHT, the second at (600,300)
  heading LEFT, each alive with a trail holding its starting position only, the game
  not over and no winner. The space bar and the restart button of a finished game
  give the same.
\<close>

theorem restart_spec:
  "Game_init g = Game_new
   \<and> apply_op Restart g = Game_new
   \<and> Game_new =
     \<lparr>player1_controls = [(K_w, UP), (K_s, DOWN), (K_a, LEFT), (K_d, RIGHT)],
      player2_controls = [(K_UP, UP), (K_DOWN, DOWN), (K_LEFT, LEFT), (K_RIGHT, RIGHT)],
      cycle1 = \<lparr>x = 200, y = 300, color = (0, 255, 255), direction = RIGHT, trail = [(200, 300)],
                key_controls = [(K_w, UP), (K_s, DOWN), (K_a, LEFT), (K_d, RIGHT)],
                player_name = ''Player 1'', speed = 5, alive = True\<rparr>,
      cycle2 = \<lparr>x = 600, y = 300, color = (255, 255, 0), direction = LEFT, trail = [(600, 300)],
                key_controls = [(K_UP, UP), (K_DOWN, DOWN), (K_LEFT, LEFT), (K_RIGHT, RIGHT)],
                player_name = ''Player 2'', speed = 5, alive = True\<rparr>,
      game_over = False, winner = None\<rparr>
   \<and> length (trail (cycle1 (Game_init g))) = 1 \<and> length (trail (cycle2 (Game_init g))) = 1
   \<and> (game_over g \<longrightarrow> handle_keydown g K_SPACE = Game_new
                       \<and> handle_mouse_input g True (400, 425) = Game_new)"
proof -
  have a: "Game_init g = Game_new" by (rule Game_init_new)
  have b: "game_over g \<longrightarrow> handle_keydown g K_SPACE = Game_new
                       \<and> handle_mouse_input g True (400, 425) = Game_new"
    by (simp add: handle_keydown_eq handle_mouse_input_def Game_init_new)
  have c: "length (trail (cycle1 Game_new)) = 1 \<and> length (trail (cycle2 Game_new)) = 1"
    by (simp add: Game_new_explicit)
  from a b c Game_new_explicit show ?thesis by simp
qed

theorem restart_spec_witness:
  "game_over (update right_edge_game)
   \<and> Game_init (update right_edge_game) = Game_new
   \<and> handle_keydown (update right_edge_game) K_SPACE = Game_new
   \<and> handle_mouse_input (update right_edge_game) True (400, 425) = Game_new
   \<and> Game_init (straight 39) = Game_new"
  using restart_spec [of "update right_edge_game"] restart_spec [of "straight 39"]
  by (simp add: right_edge_after)

text \<open>
  C8. In every game that a sequence of operations produces from a fresh one: both
  trails have at least one entry; the game is over exactly when a winner is set; while
  it is running both cycles are alive, and once it is over a cycle is dead. The winner
  becomes set only in an \<^verbatim>\<open>update\<close>, the one after which the game is over with a
  dead cycle. In any game, an operation that is not a restart keeps a finished game
  finished with the same winner and leaves a dead cycle exactly as it is; a restart
  gives the fresh game; and \<^verbatim>\<open>move\<close> and \<^verbatim>\<open>change_direction\<close> return a dead
  cycle unchanged.
\<close>

theorem game_invariants:
  "1 \<le> length (trail (cycle1 (run ops))) \<and> 1 \<le> length (trail (cycle2 (run ops)))
   \<and> game_over (run ops) = (winner (run ops) \<noteq> None)
   \<and> (\<not> game_over (run ops) \<longrightarrow> alive (cycle1 (run ops)) \<and> alive (cycle2 (run ops)))
   \<and> (game_over (run ops) \<longrightarrow> \<not> alive (cycle1 (run ops)) \<or> \<not> alive (cycle2 (run ops)))
   \<and> (\<not> game_over (run ops) \<and> winner (apply_op a (run ops)) \<noteq> None \<longrightarrow>
         a = Tick \<and> game_over (apply_op a (run ops))
         \<and> (\<not> alive (cycle1 (apply_op a (run ops))) \<or> \<not> alive (cycle2 (apply_op a (run ops)))))
   \<and> (game_over h \<and> \<not> restarts a h \<longrightarrow>
         game_over (apply_op a h) \<and> winner (apply_op a h) = winner h)
   \<and> (restarts a h \<longrightarrow> apply_op a h = Game_new)
   \<and> (\<not> alive (cycle1 h) \<and> \<not> restarts a h \<longrightarrow> cycle1 (apply_op a h) = cycle1 h)
   \<and> (\<not> alive (cycle2 h) \<and> \<not> restarts a h \<longrightarrow> cycle2 (apply_op a h) = cycle2 h)
   \<and> (\<not> alive c \<longrightarrow> move c = c \<and> change_direction c d = c)
   \<and> run (ops @ [a]) = apply_op a (run ops)"
proof -
  have r1: "1 \<le> length (trail (cycle1 (run ops))) \<and> 1 \<le> length (trail (cycle2 (run ops)))"
    using run_facts(1,2) [of ops] by (simp add: Suc_le_eq)
  have r6: "\<not> game_over (run ops) \<and> winner (apply_op a (run ops)) \<noteq> None \<longrightarrow>
         a = Tick \<and> game_over (apply_op a (run ops))
         \<and> (\<not> alive (cycle1 (apply_op a (run ops))) \<or> \<not> alive (cycle2 (apply_op a (run ops))))"
  proof (intro impI, elim conjE)
    assume n: "\<not> game_over (run ops)" and w: "winner (apply_op a (run ops)) \<noteq> None"
    from n w have t: "a = Tick" by (rule winner_set_by_tick)
    from w have "winner (run (ops @ [a])) \<noteq> None" by (simp add: run_snoc)
    then have g: "game_over (run (ops @ [a]))" by (simp add: run_facts(3))
    then have "\<not> alive (cycle1 (run (ops @ [a]))) \<or> \<not> alive (cycle2 (run (ops @ [a])))"
      by (rule run_facts(5))
    with t g show "a = Tick \<and> game_over (apply_op a (run ops))
         \<and> (\<not> alive (cycle1 (apply_op a (run ops))) \<or> \<not> alive (cycle2 (apply_op a (run ops))))"
      by (simp add: run_snoc)
  qed
  have g3: "\<not> alive c \<longrightarrow> move c = c \<and> change_direction c d = c"
    by (simp add: move_dead change_direction_dead)
  from r1 run_facts(3-5) [of ops] r6 apply_op_finished [of h a] apply_op_restart [of a h]
       apply_op_dead1 [of h a] apply_op_dead2 [of h a] g3 run_snoc [of ops a]
  show ?thesis by blast
qed

theorem game_invariants_witness:
  "\<not> game_over (run (replicate 39 Tick))
   \<and> alive (cycle1 (run (replicate 39 Tick)))
   \<and> winner (apply_op Tick (run (replicate 39 Tick))) \<noteq> None
   \<and> game_over (apply_op Tick (run (replicate 39 Tick)))
   \<and> game_over (run (replicate 40 Tick))
   \<and> \<not> alive (cycle1 (run (replicate 40 Tick)))
   \<and> winner (run (replicate 40 Tick)) \<noteq> None
   \<and> game_over (update right_edge_game) \<and> \<not> restarts Tick (update right_edge_game)
   \<and> winner (apply_op Tick (update right_edge_game)) = winner (update right_edge_game)
   \<and> \<not> restarts (KeyDown K_w) (update right_edge_game)
   \<and> game_over (apply_op (KeyDown K_w) (update right_edge_game))
   \<and> restarts (KeyDown K_SPACE) (update right_edge_game)
   \<and> apply_op (KeyDown K_SPACE) (update right_edge_game) = Game_new
   \<and> \<not> alive (cycle1 (update right_edge_game))
   \<and> cycle1 (apply_op (KeyDown K_w) (update right_edge_game)) = cycle1 (update right_edge_game)
   \<and> move (cycle1 (update right_edge_game)) = cycle1 (update right_edge_game)
   \<and> change_direction (cycle1 (update right_edge_game)) UP = cycle1 (update right_edge_game)
   \<and> \<not> alive (cycle2 (update left_edge_game)) \<and> \<not> restarts Tick (update left_edge_game)
   \<and> cycle2 (apply_op Tick (update left_edge_game)) = cycle2 (update left_edge_game)"
proof -
  let ?r = "update right_edge_game" and ?l = "update left_edge_game"
  have f: "\<not> restarts Tick ?r" "\<not> restarts Tick ?l"
    "\<not> restarts (KeyDown K_w) ?r" "restarts (KeyDown K_SPACE) ?r"
    by (simp_all add: right_edge_after)
  note i1 = game_invariants [of "replicate 39 Tick" Tick ?r "cycle1 ?r" UP]
  note i2 = game_invariants [of "replicate 40 Tick" "KeyDown K_w" ?r "cycle1 ?r" UP]
  note i3 = game_invariants [of "replicate 40 Tick" "KeyDown K_SPACE" ?r "cycle1 ?r" UP]
  note i4 = game_invariants [of "replicate 40 Tick" Tick ?l "cycle1 ?r" UP]
  have a1: "game_over (apply_op Tick (run (replicate 39 Tick)))"
    using i1 head_on_facts(1,3) by blast
  have a2: "winner (apply_op Tick ?r) = winner ?r"
    using i1 f(1) right_edge_after(1) by blast
  have a3: "move (cycle1 ?r) = cycle1 ?r" "change_direction (cycle1 ?r) UP = cycle1 ?r"
    using i1 right_edge_after(3) by blast+
  have b2: "winner (run (replicate 40 Tick)) \<noteq> None"
    using i2 head_on_facts(4) by blast
  have b3: "game_over (apply_op (KeyDown K_w) ?r)"
    using i2 f(3) right_edge_after(1) by blast
  have b4: "cycle1 (apply_op (KeyDown K_w) ?r) = cycle1 ?r"
    using i2 f(3) right_edge_after(3) by blast
  have c1: "apply_op (KeyDown K_SPACE) ?r = Game_new"
    using i3 f(4) by blast
  have d1: "cycle2 (apply_op Tick ?l) = cycle2 ?l"
    using i4 f(2) left_edge_after(4) by blast
  from head_on_facts(1-5) a1 a2 a3 b2 b3 b4 c1 d1 f right_edge_after(1,3) left_edge_after(4)
  show ?thesis by blast
qed

text \<open>
  C9. A key press in a finished game still reaches the cycle it steers: the cycle
  after the press is \<^verbatim>\<open>change_direction\<close> of the cycle before, so a live cycle
  takes a direction that is not the opposite of its own, and a dead cycle stays as it
  is by the guard of \<^verbatim>\<open>change_direction\<close> itself. The cycles after the press do
  not depend on the finished flag.
\<close>

theorem turn_after_finished:
  assumes "game_over g" and "k \<noteq> K_SPACE"
  shows "(map_of (key_controls (cycle1 g)) k = Some d \<longrightarrow>
            cycle1 (handle_keydown g k) = change_direction (cycle1 g) d
          \<and> (alive (cycle1 g) \<and> \<not> opposite (direction (cycle1 g)) d \<longrightarrow>
               direction (cycle1 (handle_keydown g k)) = d)
          \<and> (\<not> alive (cycle1 g) \<longrightarrow>
               cycle1 (handle_keydown g k) = cycle1 g \<and> change_direction (cycle1 g) d = cycle1 g))
       \<and> (map_of (key_controls (cycle2 g)) k = Some d \<longrightarrow>
            cycle2 (handle_keydown g k) = change_direction (cycle2 g) d
          \<and> (alive (cycle2 g) \<and> \<not> opposite (direction (cycle2 g)) d \<longrightarrow>
               direction (cycle2 (handle_keydown g k)) = d)
          \<and> (\<not> alive (cycle2 g) \<longrightarrow>
               cycle2 (handle_keydown g k) = cycle2 g \<and> change_direction (cycle2 g) d = cycle2 g))
       \<and> game_over (handle_keydown g k)
       \<and> cycle1 (handle_keydown g k) = cycle1 (handle_keydown (g\<lparr>game_over := False\<rparr>) k)
       \<and> cycle2 (handle_keydown g k) = cycle2 (handle_keydown (g\<lparr>game_over := False\<rparr>) k)"
proof -
  have dir: "alive c \<Longrightarrow> \<not> opposite (direction c) d \<Longrightarrow> direction (change_direction c d) = d" for c
    by (cases d; cases "direction c") (simp_all add: change_direction_def opposite_def)
  have p1: "map_of (key_controls (cycle1 g)) k = Some d \<longrightarrow>
            cycle1 (handle_keydown g k) = change_direction (cycle1 g) d
          \<and> (alive (cycle1 g) \<and> \<not> opposite (direction (cycle1 g)) d \<longrightarrow>
               direction (cycle1 (handle_keydown g k)) = d)
          \<and> (\<not> alive (cycle1 g) \<longrightarrow>
               cycle1 (handle_keydown g k) = cycle1 g \<and> change_direction (cycle1 g) d = cycle1 g)"
    using assms by (simp add: handle_keydown_eq dir change_direction_dead)
  have p2: "map_of (key_controls (cycle2 g)) k = Some d \<longrightarrow>
            cycle2 (handle_keydown g k) = change_direction (cycle2 g) d
          \<and> (alive (cycle2 g) \<and> \<not> opposite (direction (cycle2 g)) d \<longrightarrow>
               direction (cycle2 (handle_keydown g k)) = d)
          \<and> (\<not> alive (cycle2 g) \<longrightarrow>
               cycle2 (handle_keydown g k) = cycle2 g \<and> change_direction (cycle2 g) d = cycle2 g)"
    using assms by (simp add: handle_keydown_eq dir change_direction_dead)
  have p3: "game_over (handle_keydown g k)
       \<and> cycle1 (handle_keydown g k) = cycle1 (handle_keydown (g\<lparr>game_over := False\<rparr>) k)
       \<and> cycle2 (handle_keydown g k) = cycle2 (handle_keydown (g\<lparr>game_over := False\<rparr>) k)"
    using assms by (simp add: handle_keydown_eq cong: option.case_cong)
  from p1 p2 p3 show ?thesis by blast
qed

theorem turn_after_finished_witness:
  "game_over (update right_edge_game) \<and> K_UP \<noteq> K_SPACE \<and> K_w \<noteq> K_SPACE
   \<and> map_of (key_controls (cycle2 (update right_edge_game))) K_UP = Some UP
   \<and> alive (cycle2 (update right_edge_game))
   \<and> \<not> opposite (direction (cycle2 (update right_edge_game))) UP
   \<and> direction (cycle2 (handle_keydown (update right_edge_game) K_UP)) = UP
   \<and> map_of (key_controls (cycle1 (update right_edge_game))) K_w = Some UP
   \<and> \<not> alive (cycle1 (update right_edge_game))
   \<and> cycle1 (handle_keydown (update right_edge_game) K_w) = cycle1 (update right_edge_game)
   \<and> game_over (handle_keydown (update right_edge_game) K_UP)"
  using turn_after_finished [of "update right_edge_game" K_UP UP]
        turn_after_finished [of "update right_edge_game" K_w UP]
        right_edge_after(1,3,4) turn_facts
  by blast

end
